theory Spec2Isabelle
  imports Complex_Main
begin

section \<open>Duplicate detection edge function (supabase/functions/ai-detect-duplicates)\<close>

text \<open>
  The handler of \<^verbatim>\<open>ai-detect-duplicates/index.ts\<close> as a function of the request, the
  process environment, the similarity collaborator, the user lookup and the clock.

  \<^item> The request body has the shape that the caller \<^verbatim>\<open>detectDuplicates\<close> of
    \<^verbatim>\<open>src/lib/ai-service.ts\<close> sends: optional JSON fields are \<open>option\<close>s (\<open>None\<close> is an
    absent field), a file list that is missing or is no array is \<open>None\<close>. With these
    field types nothing throws between the two \<^verbatim>\<open>try\<close> blocks of the second pass, so
    its outer \<^verbatim>\<open>catch\<close> is not reached.
  \<^item> JavaScript numbers are modelled by rationals: a size in bytes is a natural
    number, a size in MB is that number divided by \<open>2 ^ 20\<close> (exact in binary floating
    point), scores and the threshold are rationals.
  \<^item> What the handler does to the outside world is a list of events, in order.
  \<^item> The answer to the \<^verbatim>\<open>OPTIONS\<close> preflight, which precedes the \<^verbatim>\<open>try\<close> block, is left
    out.
\<close>

subsection \<open>Data\<close>

text \<open>The file descriptors of the request body (see \<^verbatim>\<open>detectDuplicates\<close> in
  \<^verbatim>\<open>src/lib/ai-service.ts\<close> for the field types). The field \<^verbatim>\<open>size\<close> is named
  \<open>size_bytes\<close> here.\<close>

record file_descriptor =
  fileName :: string
  filePath :: "string option"
  content :: "string option"
  size_bytes :: "nat option"
  mimeType :: "string option"
  hash :: "string option"

text \<open>A group while it is being built: \<^verbatim>\<open>{ files, similarity_details, detection_method }\<close>.
  Of a similarity detail only its \<^verbatim>\<open>similarity_score\<close> is kept.\<close>

record duplicate_group =
  files :: "file_descriptor list"
  similarity_details :: "rat list"
  detection_method :: string

text \<open>The varying parts of the prompt sent to the collaborator: both file names and
  both content excerpts.\<close>

record prompt =
  name1 :: string
  excerpt1 :: string
  name2 :: string
  excerpt2 :: string

text \<open>What one call of the collaborator comes to: \<open>NetworkError\<close> is a rejected
  \<^verbatim>\<open>fetch\<close> or a body that is no JSON, \<open>NotOk\<close> a response whose \<^verbatim>\<open>ok\<close> is false,
  \<open>Unparseable\<close> a message content that \<^verbatim>\<open>JSON.parse\<close> rejects (or that parses to
  \<^verbatim>\<open>null\<close>), and \<open>Parsed s\<close> a parsed object with its \<^verbatim>\<open>similarity_score\<close>, if any.\<close>

datatype response = NetworkError | NotOk | Unparseable | Parsed "rat option"

text \<open>The collaborator answers the \<open>n\<close>-th call (counted from the start of the
  process) with the given prompt.\<close>

type_synonym collaborator = "nat \<Rightarrow> prompt \<Rightarrow> response"

text \<open>A group as it is returned (\<^verbatim>\<open>groupInfo\<close>) and its formatted files. The fields
  \<^verbatim>\<open>files\<close>, \<^verbatim>\<open>detection_method\<close> and \<^verbatim>\<open>similarity_details\<close> of \<^verbatim>\<open>groupInfo\<close>
  carry the prefix \<open>info_\<close>, the field \<^verbatim>\<open>hash\<close> of a formatted file is \<open>hash_label\<close>.\<close>

record file_info =
  name :: string
  path :: string
  size_mb :: rat
  mime_type :: string
  hash_label :: string

record group_info =
  info_files :: "file_info list"
  total_size_mb :: rat
  potential_savings_mb :: rat
  similarity_score :: rat
  info_detection_method :: string
  info_similarity_details :: "rat list"

record summary =
  total_files_scanned :: nat
  duplicate_groups_found :: nat
  total_duplicate_files :: nat
  similarity_threshold :: rat
  total_potential_savings_mb :: rat
  scan_method :: string
  timestamp :: string

record scan_result =
  success :: bool
  scan_summary :: summary
  duplicate_groups :: "group_info list"

text \<open>The two errors thrown inside the handler's \<^verbatim>\<open>try\<close> block; the handler answers
  them with status 500 and the error's message.\<close>

datatype error = FilesRequired | ConfigurationMissing

fun message :: "error \<Rightarrow> string" where
  "message FilesRequired = ''Files array is required''"
| "message ConfigurationMissing = ''Supabase configuration missing''"

text \<open>What the handler does to the outside world, in order: a request to the
  similarity collaborator, a console line, the lookup of the user behind a token, and
  the \<^verbatim>\<open>POST\<close> of the result to the table \<^verbatim>\<open>ai_analysis_results\<close> for a user.\<close>

datatype event =
    CollaboratorCall prompt
  | Console string
  | UserLookup string
  | StoreResult string scan_result

text \<open>The answer of \<^verbatim>\<open>/auth/v1/user\<close>: a rejected request, a response that is not ok,
  or a user object with its \<^verbatim>\<open>id\<close>, if any.\<close>

datatype lookup = LookupError | LookupNotOk | LookupOk "string option"

text \<open>The request: the three fields of its JSON body and its \<^verbatim>\<open>authorization\<close> header.\<close>

record request =
  req_files :: "file_descriptor list option"
  similarityThreshold :: "rat option"
  includeSimilar :: "bool option"
  authorization :: "string option"

text \<open>Everything else the handler reads: three environment variables, the
  collaborator and the number of calls it has answered before this request, the user
  lookup, whether the \<^verbatim>\<open>POST\<close> of the result goes through, and the clock.\<close>

record world =
  OPENROUTER_API_KEY :: "string option"
  SUPABASE_URL :: "string option"
  SUPABASE_SERVICE_ROLE_KEY :: "string option"
  collaborator :: collaborator
  calls_before :: nat
  user_lookup :: "string \<Rightarrow> lookup"
  store_succeeds :: bool
  now :: string

subsection \<open>JavaScript helpers\<close>

text \<open>\<^verbatim>\<open>a || b\<close> on optional strings: an absent or empty string is falsy.\<close>

definition or_else :: "string option \<Rightarrow> string \<Rightarrow> string" where
  "or_else a b = (case a of None \<Rightarrow> b | Some s \<Rightarrow> if s = [] then b else s)"

text \<open>A natural number inside a template literal is its decimal numeral.\<close>

fun decimal :: "nat \<Rightarrow> string" where
  "decimal n = (if n < 10 then [''0123456789'' ! n]
                else decimal (n div 10) @ [''0123456789'' ! (n mod 10)])"

declare decimal.simps [simp del]

text \<open>An absent value inside a template literal prints as \<^verbatim>\<open>undefined\<close>.\<close>

definition template_size :: "nat option \<Rightarrow> string" where
  "template_size s = (case s of None \<Rightarrow> ''undefined'' | Some n \<Rightarrow> decimal n)"

definition template_string :: "string option \<Rightarrow> string" where
  "template_string s = (case s of None \<Rightarrow> ''undefined'' | Some t \<Rightarrow> t)"

subsection \<open>First pass: grouping by hash\<close>

text \<open>\<^verbatim>\<open>hash || `${fileName}_${size}_${mimeType}`\<close>\<close>

definition fileHash :: "file_descriptor \<Rightarrow> string" where
  "fileHash file =
     or_else (hash file)
       (fileName file @ ''_'' @ template_size (size_bytes file) @ ''_'' @ template_string (mimeType file))"

text \<open>The \<^verbatim>\<open>Map\<close> \<^verbatim>\<open>fileHashes\<close> is an association list in insertion order, which is
  the order in which \<^verbatim>\<open>entries()\<close> iterates. One iteration of the first loop:\<close>

fun add_file :: "file_descriptor \<Rightarrow> (string \<times> file_descriptor list) list \<Rightarrow>
    (string \<times> file_descriptor list) list" where
  "add_file file [] = [(fileHash file, [file])]"
| "add_file file ((k, fs) # m) =
     (if k = fileHash file then (k, fs @ [file]) # m else (k, fs) # add_file file m)"

definition first_pass :: "file_descriptor list \<Rightarrow> (string \<times> file_descriptor list) list" where
  "first_pass fls = foldl (\<lambda>m file. add_file file m) [] fls"

text \<open>The loop that adds the exact duplicate groups (same hash).\<close>

definition exact_group :: "file_descriptor list \<Rightarrow> duplicate_group" where
  "exact_group fileGroup =
     \<lparr>files = fileGroup, similarity_details = [1], detection_method = ''exact_hash_match''\<rparr>"

definition exact_groups :: "(string \<times> file_descriptor list) list \<Rightarrow> duplicate_group list" where
  "exact_groups fileHashes =
     map (\<lambda>(h, fileGroup). exact_group fileGroup)
       (filter (\<lambda>(h, fileGroup). length fileGroup > 1) fileHashes)"

subsection \<open>Second pass: content similarity\<close>

text \<open>\<^verbatim>\<open>files.filter(f => f.mimeType?.startsWith('text/') || f.content)\<close>\<close>

definition is_text_file :: "file_descriptor \<Rightarrow> bool" where
  "is_text_file f \<longleftrightarrow>
     (case mimeType f of None \<Rightarrow> False | Some m \<Rightarrow> take 5 m = ''text/'') \<or>
     (case content f of None \<Rightarrow> False | Some c \<Rightarrow> c \<noteq> [])"

definition textFiles :: "file_descriptor list \<Rightarrow> file_descriptor list" where
  "textFiles fls = filter is_text_file fls"

text \<open>\<^verbatim>\<open>file.content?.substring(0, 2000) || 'No content'\<close>\<close>

definition excerpt :: "file_descriptor \<Rightarrow> string" where
  "excerpt file = or_else (map_option (take 2000) (content file)) ''No content''"

definition similarityPrompt :: "file_descriptor \<Rightarrow> file_descriptor \<Rightarrow> prompt" where
  "similarityPrompt file1 file2 =
     \<lparr>name1 = fileName file1, excerpt1 = excerpt file1,
      name2 = fileName file2, excerpt2 = excerpt file2\<rparr>"

text \<open>The mutable variables of the pass, the number of collaborator calls made so far
  and the events so far.\<close>

record scan_state =
  duplicateGroups :: "duplicate_group list"
  processedFiles :: "string set"
  calls :: nat
  trace :: "event list"

text \<open>\<^verbatim>\<open>fs.some(f => f.fileName === file.fileName)\<close>\<close>

definition has_name :: "file_descriptor list \<Rightarrow> file_descriptor \<Rightarrow> bool" where
  "has_name fs file = list_ex (\<lambda>f. fileName f = fileName file) fs"

text \<open>The branch \<^verbatim>\<open>if (existingGroup)\<close>: two guarded pushes, then the detail.\<close>

definition extend_group ::
    "duplicate_group \<Rightarrow> file_descriptor \<Rightarrow> file_descriptor \<Rightarrow> rat \<Rightarrow> duplicate_group" where
  "extend_group existingGroup file1 file2 similarity =
     (let fs1 = (if \<not> has_name (files existingGroup) file1
                 then files existingGroup @ [file1] else files existingGroup);
          fs2 = (if \<not> has_name fs1 file2 then fs1 @ [file2] else fs1)
      in existingGroup\<lparr>files := fs2,
           similarity_details := similarity_details existingGroup @ [similarity]\<rparr>)"

definition similarity_group ::
    "file_descriptor \<Rightarrow> file_descriptor \<Rightarrow> rat \<Rightarrow> duplicate_group" where
  "similarity_group file1 file2 similarity =
     \<lparr>files = [file1, file2], similarity_details = [similarity],
      detection_method = ''ai_content_similarity''\<rparr>"

text \<open>\<^verbatim>\<open>duplicateGroups.find(...)\<close> followed by the update of the group found, or by
  the push of a new group when there is none: the first group that holds one of the two
  names is extended in place.\<close>

fun group_pair :: "file_descriptor \<Rightarrow> file_descriptor \<Rightarrow> rat \<Rightarrow>
    duplicate_group list \<Rightarrow> duplicate_group list" where
  "group_pair file1 file2 similarity [] = [similarity_group file1 file2 similarity]"
| "group_pair file1 file2 similarity (grp # grps) =
     (if has_name (files grp) file1 \<or> has_name (files grp) file2
      then extend_group grp file1 file2 similarity # grps
      else grp # group_pair file1 file2 similarity grps)"

text \<open>What the answer of the collaborator does to the state, after the call has been
  recorded: the two \<^verbatim>\<open>catch\<close> blocks only warn, a response that is not ok does nothing,
  and a missing score compares false with every threshold.\<close>

fun on_response :: "rat \<Rightarrow> file_descriptor \<Rightarrow> file_descriptor \<Rightarrow> response \<Rightarrow>
    scan_state \<Rightarrow> scan_state" where
  "on_response threshold file1 file2 NetworkError s =
     s\<lparr>trace := trace s @ [Console ''AI similarity check failed:'']\<rparr>"
| "on_response threshold file1 file2 NotOk s = s"
| "on_response threshold file1 file2 Unparseable s =
     s\<lparr>trace := trace s @ [Console ''Failed to parse similarity result:'']\<rparr>"
| "on_response threshold file1 file2 (Parsed None) s = s"
| "on_response threshold file1 file2 (Parsed (Some score)) s =
     (if score \<ge> threshold
      then s\<lparr>duplicateGroups := group_pair file1 file2 score (duplicateGroups s)\<rparr>
      else s)"

text \<open>The body of the inner loop.\<close>

definition compare_pair :: "rat \<Rightarrow> collaborator \<Rightarrow> file_descriptor \<Rightarrow> file_descriptor \<Rightarrow>
    scan_state \<Rightarrow> scan_state" where
  "compare_pair threshold ask file1 file2 s =
     (let key = fileName file1 @ ''_'' @ fileName file2 in
      if key \<in> processedFiles s then s
      else
        let s1 = s\<lparr>processedFiles := insert key (processedFiles s)\<rparr> in
        if fileHash file1 = fileHash file2 then s1
        else
          let p = similarityPrompt file1 file2;
              s2 = s1\<lparr>calls := calls s1 + 1, trace := trace s1 @ [CollaboratorCall p]\<rparr>
          in on_response threshold file1 file2 (ask (calls s1) p) s2)"

text \<open>\<^verbatim>\<open>for (let j = i + 1; j < textFiles.length; j++)\<close> over the files after
  \<^verbatim>\<open>textFiles[i]\<close>, and \<^verbatim>\<open>for (let i = 0; i < textFiles.length - 1; i++)\<close>.\<close>

fun inner_loop :: "rat \<Rightarrow> collaborator \<Rightarrow> file_descriptor \<Rightarrow> file_descriptor list \<Rightarrow>
    scan_state \<Rightarrow> scan_state" where
  "inner_loop threshold ask file1 [] s = s"
| "inner_loop threshold ask file1 (file2 # rest) s =
     inner_loop threshold ask file1 rest (compare_pair threshold ask file1 file2 s)"

fun outer_loop :: "rat \<Rightarrow> collaborator \<Rightarrow> file_descriptor list \<Rightarrow>
    scan_state \<Rightarrow> scan_state" where
  "outer_loop threshold ask [] s = s"
| "outer_loop threshold ask (file1 # rest) s =
     outer_loop threshold ask rest (inner_loop threshold ask file1 rest s)"

definition second_pass :: "rat \<Rightarrow> collaborator \<Rightarrow> file_descriptor list \<Rightarrow>
    scan_state \<Rightarrow> scan_state" where
  "second_pass threshold ask fls s = outer_loop threshold ask (textFiles fls) s"

subsection \<open>Statistics and formatting\<close>

text \<open>\<^verbatim>\<open>parseFloat(x.toFixed(2))\<close>: the sign is set aside and the magnitude is rounded
  to the nearest hundredth, a tie going up.\<close>

definition toFixed2 :: "rat \<Rightarrow> rat" where
  "toFixed2 x =
     (if x < 0 then - (of_int \<lfloor>(- x) * 100 + 1 / 2\<rfloor> / 100)
      else of_int \<lfloor>x * 100 + 1 / 2\<rfloor> / 100)"

text \<open>\<^verbatim>\<open>(file.size || 0) / (1024 * 1024)\<close>\<close>

definition sizeInMB :: "file_descriptor \<Rightarrow> rat" where
  "sizeInMB file = of_nat (case size_bytes file of None \<Rightarrow> 0 | Some n \<Rightarrow> n) / (1024 * 1024)"

definition format_file :: "file_descriptor \<Rightarrow> file_info" where
  "format_file file =
     \<lparr>name = fileName file,
      path = or_else (filePath file) [],
      size_mb = toFixed2 (sizeInMB file),
      mime_type = or_else (mimeType file) ''unknown'',
      hash_label = or_else (hash file) ''calculated''\<rparr>"

text \<open>\<^verbatim>\<open>Math.max(...xs)\<close>; it is only called on the sizes of a group of more than one
  file.\<close>

fun Math_max :: "rat list \<Rightarrow> rat" where
  "Math_max (x # xs) = fold max xs x"

text \<open>The callback of \<^verbatim>\<open>duplicateGroups.map\<close>, without its two counters.\<close>

definition format_group :: "duplicate_group \<Rightarrow> group_info" where
  "format_group grp =
     (let fs = map format_file (files grp);
          total = sum_list (map sizeInMB (files grp))
      in \<lparr>info_files = fs,
          total_size_mb = total,
          potential_savings_mb =
            (if length fs > 1 then toFixed2 (total - Math_max (map size_mb fs)) else 0),
          similarity_score =
            (case similarity_details grp of [] \<Rightarrow> 0 | detail # _ \<Rightarrow> detail),
          info_detection_method = detection_method grp,
          info_similarity_details = similarity_details grp\<rparr>)"

text \<open>The two counters that the callback updates.\<close>

definition totalDuplicateFiles :: "group_info list \<Rightarrow> nat" where
  "totalDuplicateFiles gs =
     sum_list (map (\<lambda>g. if length (info_files g) > 1 then length (info_files g) - 1 else 0) gs)"

definition totalPotentialSavings :: "group_info list \<Rightarrow> rat" where
  "totalPotentialSavings gs =
     sum_list (map (\<lambda>g. if length (info_files g) > 1 then potential_savings_mb g else 0) gs)"

subsection \<open>The scan\<close>

text \<open>\<^verbatim>\<open>Deno.env.get('OPENROUTER_API_KEY') || '...'\<close>; the literal of the source is
  not repeated here, only that it is a non-empty string matters.\<close>

definition default_key :: string where
  "default_key = ''sk-or-v1''"

definition openRouterKey :: "world \<Rightarrow> string" where
  "openRouterKey w = or_else (OPENROUTER_API_KEY w) default_key"

text \<open>The groups before formatting, with the state of the second pass: the similarity
  groups first, then the exact groups in the order of the map.\<close>

definition detect :: "world \<Rightarrow> file_descriptor list \<Rightarrow> rat \<Rightarrow> bool \<Rightarrow> scan_state" where
  "detect w fls threshold similar =
     (let fileHashes = first_pass fls;
          s0 = \<lparr>duplicateGroups = [], processedFiles = {}, calls = calls_before w, trace = []\<rparr>;
          s1 = (if openRouterKey w \<noteq> [] \<and> similar
                then second_pass threshold (collaborator w) fls s0 else s0)
      in s1\<lparr>duplicateGroups := duplicateGroups s1 @ exact_groups fileHashes\<rparr>)"

definition build_result :: "world \<Rightarrow> file_descriptor list \<Rightarrow> rat \<Rightarrow> duplicate_group list \<Rightarrow>
    scan_result" where
  "build_result w fls threshold grps =
     (let formattedGroups = map format_group grps
      in \<lparr>success = True,
          scan_summary =
            \<lparr>total_files_scanned = length fls,
             duplicate_groups_found = length grps,
             total_duplicate_files = totalDuplicateFiles formattedGroups,
             similarity_threshold = threshold,
             total_potential_savings_mb = toFixed2 (totalPotentialSavings formattedGroups),
             scan_method = (if openRouterKey w \<noteq> [] then ''ai_enhanced'' else ''basic_hash''),
             timestamp = now w\<rparr>,
          duplicate_groups = formattedGroups\<rparr>)"

text \<open>\<^verbatim>\<open>authHeader.replace('Bearer ', '')\<close> removes the first occurrence.\<close>

fun remove_first :: "string \<Rightarrow> string \<Rightarrow> string" where
  "remove_first pat [] = []"
| "remove_first pat (c # cs) =
     (if take (length pat) (c # cs) = pat then drop (length pat) (c # cs)
      else c # remove_first pat cs)"

text \<open>The user lookup and the storing of the result, as the events they add.\<close>

definition store_events :: "world \<Rightarrow> string option \<Rightarrow> scan_result \<Rightarrow> event list" where
  "store_events w authHeader result =
     (case authHeader of
        None \<Rightarrow> []
      | Some h \<Rightarrow>
          if h = [] then []
          else
            let token = remove_first ''Bearer '' h in
            UserLookup token #
            (case user_lookup w token of
               LookupError \<Rightarrow> [Console ''Could not get user from token:'']
             | LookupNotOk \<Rightarrow> []
             | LookupOk None \<Rightarrow> []
             | LookupOk (Some userId) \<Rightarrow>
                 if userId = [] then []
                 else StoreResult userId result #
                   (if store_succeeds w then []
                    else [Console ''Failed to store duplicate detection result:''])))"

text \<open>The destructuring of the request body with its two defaults.\<close>

definition threshold_of :: "request \<Rightarrow> rat" where
  "threshold_of req = (case similarityThreshold req of None \<Rightarrow> 9 / 10 | Some t \<Rightarrow> t)"

definition similar_of :: "request \<Rightarrow> bool" where
  "similar_of req = (case includeSimilar req of None \<Rightarrow> True | Some b \<Rightarrow> b)"

text \<open>The two checks that throw, in the order of the source.\<close>

definition validate :: "world \<Rightarrow> request \<Rightarrow> error + file_descriptor list" where
  "validate w req =
     (case req_files req of
        None \<Rightarrow> Inl FilesRequired
      | Some fls \<Rightarrow>
          if fls = [] then Inl FilesRequired
          else if or_else (SUPABASE_URL w) [] = [] \<or> or_else (SUPABASE_SERVICE_ROLE_KEY w) [] = []
          then Inl ConfigurationMissing
          else Inr fls)"

text \<open>The \<^verbatim>\<open>try\<close> block of the handler and its \<^verbatim>\<open>catch\<close>: the answer (an error is the
  status 500 response with the error's message) and the events. The \<^verbatim>\<open>OPTIONS\<close>
  preflight, answered before the block, is not part of it.\<close>

definition scan :: "world \<Rightarrow> request \<Rightarrow> (error + scan_result) \<times> event list" where
  "scan w req =
     (case validate w req of
        Inl e \<Rightarrow> (Inl e, [Console ''Duplicate detection error:''])
      | Inr fls \<Rightarrow>
          let s = detect w fls (threshold_of req) (similar_of req);
              result = build_result w fls (threshold_of req) (duplicateGroups s)
          in (Inr result, trace s @ store_events w (authorization req) result))"

section \<open>Notions used in the statements\<close>

text \<open>The groups of the response body; an error response has none.\<close>

definition returned_groups :: "world \<Rightarrow> request \<Rightarrow> group_info list" where
  "returned_groups w req = (case fst (scan w req) of Inl e \<Rightarrow> [] | Inr r \<Rightarrow> duplicate_groups r)"

text \<open>The kinds of events, and the prompts of the collaborator calls among them.\<close>

fun is_call :: "event \<Rightarrow> bool" where
  "is_call (CollaboratorCall p) = True"
| "is_call e = False"

fun is_console :: "event \<Rightarrow> bool" where
  "is_console (Console l) = True"
| "is_console e = False"

fun prompts :: "event list \<Rightarrow> prompt list" where
  "prompts [] = []"
| "prompts (CollaboratorCall p # es) = p # prompts es"
| "prompts (e # es) = prompts es"

text \<open>The key under which the second pass remembers a pair, read off a prompt.\<close>

definition pair_key :: "prompt \<Rightarrow> string" where
  "pair_key p = name1 p @ ''_'' @ name2 p"

text \<open>The keys of a file list in the order of their first occurrence.\<close>

fun first_keys :: "file_descriptor list \<Rightarrow> string list" where
  "first_keys [] = []"
| "first_keys (f # fs) = fileHash f # filter (\<lambda>k. k \<noteq> fileHash f) (first_keys fs)"

text \<open>The exact grouping pass in the words of the specification: every key that at
  least two files share gives one group, tagged as an exact hash match with score 1,
  whose members are the files with that key in encounter order.\<close>

definition spec_exact_groups :: "file_descriptor list \<Rightarrow> duplicate_group list" where
  "spec_exact_groups fls =
     map (\<lambda>k. \<lparr>files = filter (\<lambda>f. fileHash f = k) fls, similarity_details = [1],
                detection_method = ''exact_hash_match''\<rparr>)
       (filter (\<lambda>k. 2 \<le> length (filter (\<lambda>f. fileHash f = k) fls)) (first_keys fls))"

text \<open>The failures of the collaborator, and a collaborator that answers with a score
  below the threshold wherever the given one fails.\<close>

fun failed :: "response \<Rightarrow> bool" where
  "failed NetworkError = True"
| "failed NotOk = True"
| "failed Unparseable = True"
| "failed (Parsed s) = False"

definition non_match_on_failure :: "rat \<Rightarrow> collaborator \<Rightarrow> collaborator" where
  "non_match_on_failure threshold ask =
     (\<lambda>n p. if failed (ask n p) then Parsed (Some (threshold - 1)) else ask n p)"

text \<open>A deterministic collaborator answers by the prompt alone.\<close>

definition deterministic :: "collaborator \<Rightarrow> bool" where
  "deterministic ask \<longleftrightarrow> (\<forall>n m p. ask n p = ask m p)"

definition set_timestamp :: "string \<Rightarrow> error + scan_result \<Rightarrow> error + scan_result" where
  "set_timestamp t a =
     (case a of Inl e \<Rightarrow> Inl e
      | Inr r \<Rightarrow> Inr (r\<lparr>scan_summary := (scan_summary r)\<lparr>timestamp := t\<rparr>\<rparr>))"

text \<open>The state after the second pass, or the initial state when the pass is skipped.\<close>

definition after_second_pass :: "world \<Rightarrow> file_descriptor list \<Rightarrow> rat \<Rightarrow> bool \<Rightarrow> scan_state" where
  "after_second_pass w fls t similar =
     (if openRouterKey w \<noteq> [] \<and> similar
      then second_pass t (collaborator w) fls
             \<lparr>duplicateGroups = [], processedFiles = {}, calls = calls_before w, trace = []\<rparr>
      else \<lparr>duplicateGroups = [], processedFiles = {}, calls = calls_before w, trace = []\<rparr>)"

text \<open>What the second pass keeps true of each of its groups, whose files come from
  \<open>A\<close>: it has two members or more, it is tagged as a content similarity group and has
  a detail, the names of its members after the first are distinct, and the name of the
  first differs from the names of the members from the third on.\<close>

definition similarity_group_ok :: "file_descriptor set \<Rightarrow> duplicate_group \<Rightarrow> bool" where
  "similarity_group_ok A g \<longleftrightarrow>
     2 \<le> length (files g) \<and> detection_method g = ''ai_content_similarity'' \<and>
     similarity_details g \<noteq> [] \<and> set (files g) \<subseteq> A \<and>
     distinct (map fileName (tl (files g))) \<and>
     fileName (hd (files g)) \<notin> fileName ` set (drop 2 (files g))"

text \<open>What the second pass keeps true of its events: they are collaborator calls and
  console lines, the key of every call is among the processed keys, and no two calls
  have the same key.\<close>

definition trace_ok :: "scan_state \<Rightarrow> bool" where
  "trace_ok s \<longleftrightarrow>
     (\<forall>e \<in> set (trace s). is_call e \<or> is_console e) \<and>
     pair_key ` set (prompts (trace s)) \<subseteq> processedFiles s \<and>
     distinct (map pair_key (prompts (trace s)))"

text \<open>A state of the second pass without its console lines, and without its call
  counter.\<close>

definition core :: "scan_state \<Rightarrow> duplicate_group list \<times> string set \<times> nat \<times> prompt list" where
  "core s = (duplicateGroups s, processedFiles s, calls s, prompts (trace s))"

definition uncounted :: "scan_state \<Rightarrow> duplicate_group list \<times> string set \<times> event list" where
  "uncounted s = (duplicateGroups s, processedFiles s, trace s)"

section \<open>Sample inputs\<close>

text \<open>A file with a name, a size, a content and a hash, and nothing else.\<close>

definition sample_file :: "string \<Rightarrow> nat \<Rightarrow> string \<Rightarrow> string \<Rightarrow> file_descriptor" where
  "sample_file n sz c h =
     \<lparr>fileName = n, filePath = None, content = Some c, size_bytes = Some sz,
      mimeType = None, hash = Some h\<rparr>"

text \<open>A configured deployment whose collaborator answers every prompt with the given
  response and whose user lookup knows every token.\<close>

definition sample_world :: "response \<Rightarrow> world" where
  "sample_world answer =
     \<lparr>OPENROUTER_API_KEY = None, SUPABASE_URL = Some ''https://project.example'',
      SUPABASE_SERVICE_ROLE_KEY = Some ''service-role'',
      collaborator = (\<lambda>n p. answer), calls_before = 0,
      user_lookup = (\<lambda>token. LookupOk (Some ''user-1'')), store_succeeds = True,
      now = ''2024-01-01T00:00:00.000Z''\<rparr>"

text \<open>A request with the default threshold and no authorization header.\<close>

definition sample_request :: "file_descriptor list \<Rightarrow> bool \<Rightarrow> request" where
  "sample_request fls similar =
     \<lparr>req_files = Some fls, similarityThreshold = None, includeSimilar = Some similar,
      authorization = None\<rparr>"
section \<open>Evaluation\<close>

text \<open>The definitions that evaluate a scan on the sample inputs.\<close>

text \<open>The floor of a quotient of numerals, for the evaluation of \<open>toFixed2\<close>.\<close>

lemma floor_rat_numeral: "\<lfloor>(numeral a :: rat) / numeral b\<rfloor> = numeral a div numeral b"
  using floor_divide_of_int_eq [of "numeral a" "numeral b", where ?'a = rat] by simp

lemma floor_rat_one: "\<lfloor>(1 :: rat) / numeral b\<rfloor> = 1 div numeral b"
  using floor_divide_of_int_eq [of 1 "numeral b", where ?'a = rat] by simp

lemmas sample_defs = sample_file_def sample_world_def sample_request_def

lemmas scan_defs =
  scan_def validate_def threshold_of_def similar_of_def detect_def build_result_def
  first_pass_def exact_groups_def exact_group_def fileHash_def or_else_def
  second_pass_def textFiles_def is_text_file_def compare_pair_def similarityPrompt_def
  excerpt_def has_name_def extend_group_def similarity_group_def
  format_group_def format_file_def toFixed2_def sizeInMB_def
  totalDuplicateFiles_def totalPotentialSavings_def openRouterKey_def default_key_def
  store_events_def returned_groups_def Let_def
  floor_rat_numeral floor_rat_one
section \<open>Properties of the passes\<close>

lemma scan_valid:
  "validate w req = Inr fls \<Longrightarrow>
   scan w req =
     (Inr (build_result w fls (threshold_of req)
            (duplicateGroups (detect w fls (threshold_of req) (similar_of req)))),
      trace (detect w fls (threshold_of req) (similar_of req)) @
        store_events w (authorization req)
          (build_result w fls (threshold_of req)
            (duplicateGroups (detect w fls (threshold_of req) (similar_of req)))))"
  by (simp add: scan_def Let_def)

lemma scan_invalid:
  "validate w req = Inl e \<Longrightarrow> scan w req = (Inl e, [Console ''Duplicate detection error:''])"
  by (simp add: scan_def)

lemma validate_empty: "req_files req = Some [] \<Longrightarrow> validate w req = Inl FilesRequired"
  by (simp add: validate_def)

lemma validate_missing: "req_files req = None \<Longrightarrow> validate w req = Inl FilesRequired"
  by (simp add: validate_def)


lemma inner_loop_invariant:
  assumes step: "\<And>f1 f2 s. f1 \<in> A \<Longrightarrow> f2 \<in> A \<Longrightarrow> P s \<Longrightarrow> P (compare_pair t ask f1 f2 s)"
  shows "file1 \<in> A \<Longrightarrow> set rest \<subseteq> A \<Longrightarrow> P s \<Longrightarrow> P (inner_loop t ask file1 rest s)"
  by (induction rest arbitrary: s) (auto intro: step)

lemma outer_loop_invariant:
  assumes step: "\<And>f1 f2 s. f1 \<in> A \<Longrightarrow> f2 \<in> A \<Longrightarrow> P s \<Longrightarrow> P (compare_pair t ask f1 f2 s)"
  shows "set fs \<subseteq> A \<Longrightarrow> P s \<Longrightarrow> P (outer_loop t ask fs s)"
proof (induction fs arbitrary: s)
  case Nil
  then show ?case by simp
next
  case (Cons f fs)
  from Cons.prems have "P (inner_loop t ask f fs s)"
    by (intro inner_loop_invariant [where A = A and P = P] step) auto
  with Cons show ?case by simp
qed

lemma second_pass_invariant:
  assumes step: "\<And>f1 f2 s. f1 \<in> set fls \<Longrightarrow> f2 \<in> set fls \<Longrightarrow> P s \<Longrightarrow> P (compare_pair t ask f1 f2 s)"
  shows "P s \<Longrightarrow> P (second_pass t ask fls s)"
  unfolding second_pass_def
  by (rule outer_loop_invariant [where A = "set fls" and P = P]) (auto intro: step simp: textFiles_def)

lemma inner_loop_related:
  assumes step: "\<And>f1 f2 s s'. R s s' \<Longrightarrow> R (compare_pair t ask f1 f2 s) (compare_pair t ask' f1 f2 s')"
  shows "R s s' \<Longrightarrow> R (inner_loop t ask file1 rest s) (inner_loop t ask' file1 rest s')"
  by (induction rest arbitrary: s s') (auto intro: step)

lemma outer_loop_related:
  assumes step: "\<And>f1 f2 s s'. R s s' \<Longrightarrow> R (compare_pair t ask f1 f2 s) (compare_pair t ask' f1 f2 s')"
  shows "R s s' \<Longrightarrow> R (outer_loop t ask fs s) (outer_loop t ask' fs s')"
proof (induction fs arbitrary: s s')
  case Nil
  then show ?case by simp
next
  case (Cons f fs)
  from Cons.prems have "R (inner_loop t ask f fs s) (inner_loop t ask' f fs s')"
    by (intro inner_loop_related [where R = R] step)
  with Cons.IH show ?case by simp
qed

lemma has_name_iff: "has_name fs file \<longleftrightarrow> fileName file \<in> fileName ` set fs"
  unfolding has_name_def list_ex_iff using image_iff by fastforce

lemma push_ok:
  assumes "similarity_group_ok A g" "f \<in> A" "fileName f \<notin> fileName ` set (files g)"
  shows "similarity_group_ok A (g\<lparr>files := files g @ [f]\<rparr>)"
proof -
  from assms(1) have len: "2 \<le> length (files g)" by (simp add: similarity_group_ok_def)
  then have ne: "files g \<noteq> []" by auto
  have "set (tl (files g)) \<subseteq> set (files g)" using ne by (auto dest: list.set_sel(2))
  with assms(3) have a: "fileName f \<notin> fileName ` set (tl (files g))" by blast
  have "set (drop 2 (files g)) \<subseteq> set (files g)" by (rule set_drop_subset)
  with assms(3) have b: "fileName f \<notin> fileName ` set (drop 2 (files g))" by blast
  have "hd (files g) \<in> set (files g)" using ne by simp
  with assms(3) have c: "fileName (hd (files g)) \<noteq> fileName f" by (metis imageI)
  show ?thesis
    using assms(1,2) len ne a b c
    by (simp add: similarity_group_ok_def)
qed

lemma details_ok:
  "similarity_group_ok A g \<Longrightarrow> similarity_group_ok A (g\<lparr>similarity_details := similarity_details g @ [x]\<rparr>)"
  by (simp add: similarity_group_ok_def)

lemma extend_group_ok:
  assumes "similarity_group_ok A g" "f1 \<in> A" "f2 \<in> A"
  shows "similarity_group_ok A (extend_group g f1 f2 x)"
proof -
  define g1 where "g1 = (if \<not> has_name (files g) f1 then g\<lparr>files := files g @ [f1]\<rparr> else g)"
  define g2 where "g2 = (if \<not> has_name (files g1) f2 then g1\<lparr>files := files g1 @ [f2]\<rparr> else g1)"
  have ok1: "similarity_group_ok A g1"
    using assms by (auto simp: g1_def has_name_iff intro: push_ok)
  have ok2: "similarity_group_ok A g2"
    unfolding g2_def using ok1 assms(3) by (auto simp: has_name_iff intro: push_ok)
  have "extend_group g f1 f2 x = g2\<lparr>similarity_details := similarity_details g2 @ [x]\<rparr>"
    by (simp add: extend_group_def g1_def g2_def Let_def)
  with ok2 show ?thesis by (simp add: details_ok)
qed

lemma similarity_group_is_ok:
  "f1 \<in> A \<Longrightarrow> f2 \<in> A \<Longrightarrow> similarity_group_ok A (similarity_group f1 f2 x)"
  by (simp add: similarity_group_ok_def similarity_group_def)

lemma group_pair_ok:
  assumes "f1 \<in> A" "f2 \<in> A"
  shows "\<forall>g \<in> set gs. similarity_group_ok A g \<Longrightarrow>
         \<forall>g \<in> set (group_pair f1 f2 x gs). similarity_group_ok A g"
  using assms by (induction gs) (auto simp: similarity_group_is_ok extend_group_ok)

lemma on_response_groups_ok:
  assumes "f1 \<in> A" "f2 \<in> A" "\<forall>g \<in> set (duplicateGroups s). similarity_group_ok A g"
  shows "\<forall>g \<in> set (duplicateGroups (on_response t f1 f2 r s)). similarity_group_ok A g"
proof (cases r)
  case (Parsed sc)
  then show ?thesis
    using assms group_pair_ok [OF assms(1,2), of "duplicateGroups s"]
    by (cases sc) auto
qed (use assms in auto)

lemma compare_pair_groups_ok:
  assumes "f1 \<in> A" "f2 \<in> A" "\<forall>g \<in> set (duplicateGroups s). similarity_group_ok A g"
  shows "\<forall>g \<in> set (duplicateGroups (compare_pair t ask f1 f2 s)). similarity_group_ok A g"
proof -
  have "\<forall>g \<in> set (duplicateGroups (on_response t f1 f2 r (s\<lparr>processedFiles := X, calls := n, trace := tr\<rparr>))).
          similarity_group_ok A g" for r X n tr
    by (rule on_response_groups_ok) (use assms in simp_all)
  then show ?thesis
    using assms(3) by (simp add: compare_pair_def Let_def del: on_response.simps)
qed

lemma prompts_append: "prompts (xs @ ys) = prompts xs @ prompts ys"
  by (induction xs rule: prompts.induct) simp_all

lemma on_response_processed: "processedFiles (on_response t f1 f2 r s) = processedFiles s"
  by (induction t f1 f2 r s rule: on_response.induct) simp_all

lemma on_response_calls: "calls (on_response t f1 f2 r s) = calls s"
  by (induction t f1 f2 r s rule: on_response.induct) simp_all

lemma on_response_prompts: "prompts (trace (on_response t f1 f2 r s)) = prompts (trace s)"
  by (induction t f1 f2 r s rule: on_response.induct) (simp_all add: prompts_append)

lemma on_response_events:
  "(\<forall>e \<in> set (trace s). is_call e \<or> is_console e) \<Longrightarrow>
   (\<forall>e \<in> set (trace (on_response t f1 f2 r s)). is_call e \<or> is_console e)"
  by (induction t f1 f2 r s rule: on_response.induct) auto

lemma on_response_trace_ok:
  "trace_ok s \<Longrightarrow> trace_ok (on_response t f1 f2 r s)"
  unfolding trace_ok_def
  using on_response_events [of s t f1 f2 r]
  by (simp add: on_response_processed on_response_prompts del: on_response.simps)

lemma pair_key_similarityPrompt:
  "pair_key (similarityPrompt f1 f2) = fileName f1 @ ''_'' @ fileName f2"
  by (simp add: pair_key_def similarityPrompt_def)

lemma call_trace_ok:
  assumes "trace_ok s" "pair_key p \<notin> processedFiles s"
  shows "trace_ok (s\<lparr>processedFiles := insert (pair_key p) (processedFiles s),
            calls := n, trace := trace s @ [CollaboratorCall p]\<rparr>)"
  using assms by (auto simp: trace_ok_def prompts_append)

lemma compare_pair_trace_ok:
  assumes "trace_ok s"
  shows "trace_ok (compare_pair t ask f1 f2 s)"
proof -
  let ?p = "similarityPrompt f1 f2"
  let ?key = "fileName f1 @ ''_'' @ fileName f2"
  show ?thesis
  proof (cases "?key \<in> processedFiles s")
    case True
    then show ?thesis using assms by (simp add: compare_pair_def)
  next
    case False
    show ?thesis
    proof (cases "fileHash f1 = fileHash f2")
      case True
      have "trace_ok (s\<lparr>processedFiles := insert ?key (processedFiles s)\<rparr>)"
        using assms by (auto simp: trace_ok_def)
      with True False show ?thesis by (simp add: compare_pair_def)
    next
      case neq: False
      from False have "pair_key ?p \<notin> processedFiles s"
        by (simp add: pair_key_similarityPrompt)
      from call_trace_ok [OF assms this, of "calls s + 1"]
      have "trace_ok (on_response t f1 f2 (ask (calls s) ?p)
              (s\<lparr>processedFiles := insert ?key (processedFiles s),
                 calls := calls s + 1, trace := trace s @ [CollaboratorCall ?p]\<rparr>))"
        by (intro on_response_trace_ok) (simp add: pair_key_similarityPrompt)
      with False neq show ?thesis
        by (simp add: compare_pair_def Let_def del: on_response.simps)
    qed
  qed
qed

lemma second_pass_trace_ok: "trace_ok s \<Longrightarrow> trace_ok (second_pass t ask fls s)"
  by (rule second_pass_invariant [where P = trace_ok]) (rule compare_pair_trace_ok)

lemma second_pass_groups_ok:
  "\<forall>g \<in> set (duplicateGroups s). similarity_group_ok (set fls) g \<Longrightarrow>
   \<forall>g \<in> set (duplicateGroups (second_pass t ask fls s)). similarity_group_ok (set fls) g"
  by (rule second_pass_invariant
        [where P = "\<lambda>s. \<forall>g \<in> set (duplicateGroups s). similarity_group_ok (set fls) g"])
     (rule compare_pair_groups_ok)

lemma detect_groups:
  "duplicateGroups (detect w fls t similar) =
     duplicateGroups (after_second_pass w fls t similar) @ exact_groups (first_pass fls)"
  by (simp add: detect_def after_second_pass_def Let_def)

lemma detect_trace:
  "trace (detect w fls t similar) = trace (after_second_pass w fls t similar)"
  by (simp add: detect_def after_second_pass_def Let_def)

lemma after_second_pass_groups_ok:
  "\<forall>g \<in> set (duplicateGroups (after_second_pass w fls t similar)). similarity_group_ok (set fls) g"
  unfolding after_second_pass_def
  using second_pass_groups_ok [of "\<lparr>duplicateGroups = [], processedFiles = {}, calls = calls_before w, trace = []\<rparr>" fls t "collaborator w"]
  by simp

lemma after_second_pass_trace_ok: "trace_ok (after_second_pass w fls t similar)"
  unfolding after_second_pass_def
  using second_pass_trace_ok [of "\<lparr>duplicateGroups = [], processedFiles = {}, calls = calls_before w, trace = []\<rparr>" t "collaborator w" fls]
  by (simp add: trace_ok_def)

lemma after_second_pass_off:
  "duplicateGroups (after_second_pass w fls t False) = []"
  by (simp add: after_second_pass_def)

lemma exact_groups_members:
  "g \<in> set (exact_groups m) \<Longrightarrow>
     2 \<le> length (files g) \<and> detection_method g = ''exact_hash_match'' \<and> similarity_details g = [1]"
  by (auto simp: exact_groups_def exact_group_def)

lemma detect_group_cases:
  assumes "g \<in> set (duplicateGroups (detect w fls t similar))"
  shows "similarity_group_ok (set fls) g \<or>
         (2 \<le> length (files g) \<and> detection_method g = ''exact_hash_match'' \<and> similarity_details g = [1])"
  using assms after_second_pass_groups_ok [of w fls t similar] exact_groups_members [of g "first_pass fls"]
  by (auto simp: detect_groups)

lemma returned_groups_valid:
  "validate w req = Inr fls \<Longrightarrow>
   returned_groups w req =
     map format_group (duplicateGroups (detect w fls (threshold_of req) (similar_of req)))"
  by (simp add: returned_groups_def scan_valid build_result_def Let_def)

lemma returned_groups_invalid: "validate w req = Inl e \<Longrightarrow> returned_groups w req = []"
  by (simp add: returned_groups_def scan_invalid)

lemma format_group_files: "info_files (format_group g) = map format_file (files g)"
  by (simp add: format_group_def Let_def)

lemma format_group_method: "info_detection_method (format_group g) = detection_method g"
  by (simp add: format_group_def Let_def)

subsection \<open>The first pass as a table of the keys\<close>

lemma set_first_keys: "set (first_keys fs) = fileHash ` set fs"
  by (induction fs) auto

lemma distinct_first_keys: "distinct (first_keys fs)"
  by (induction fs) auto

lemma first_keys_snoc:
  "first_keys (fs @ [f]) =
     (if fileHash f \<in> fileHash ` set fs then first_keys fs else first_keys fs @ [fileHash f])"
  by (induction fs) (auto simp: set_first_keys)

lemma add_file_table:
  assumes "distinct ks"
  shows "add_file f (map (\<lambda>k. (k, G k)) ks) =
     (if fileHash f \<in> set ks
      then map (\<lambda>k. (k, if k = fileHash f then G k @ [f] else G k)) ks
      else map (\<lambda>k. (k, G k)) ks @ [(fileHash f, [f])])"
  using assms
proof (induction ks)
  case Nil
  then show ?case by simp
next
  case (Cons k ks)
  show ?case
  proof (cases "k = fileHash f")
    case True
    with Cons.prems have "fileHash f \<notin> set ks" by simp
    then have "map (\<lambda>k. (k, if k = fileHash f then G k @ [f] else G k)) ks = map (\<lambda>k. (k, G k)) ks"
      by (intro map_cong) auto
    with True show ?thesis by simp
  next
    case False
    with Cons show ?thesis by simp
  qed
qed

lemma first_pass_snoc: "first_pass (fls @ [f]) = add_file f (first_pass fls)"
  by (simp add: first_pass_def)

lemma first_pass_table:
  "first_pass fls = map (\<lambda>k. (k, filter (\<lambda>f. fileHash f = k) fls)) (first_keys fls)"
proof (induction fls rule: rev_induct)
  case Nil
  then show ?case by (simp add: first_pass_def)
next
  case (snoc f fls)
  let ?G = "\<lambda>k. filter (\<lambda>f. fileHash f = k) fls"
  have step: "first_pass (fls @ [f]) = add_file f (map (\<lambda>k. (k, ?G k)) (first_keys fls))"
    by (simp add: first_pass_snoc snoc.IH)
  show ?case
  proof (cases "fileHash f \<in> fileHash ` set fls")
    case True
    then have "first_pass (fls @ [f]) =
        map (\<lambda>k. (k, if k = fileHash f then ?G k @ [f] else ?G k)) (first_keys fls)"
      by (simp add: step add_file_table distinct_first_keys set_first_keys)
    also have "\<dots> = map (\<lambda>k. (k, filter (\<lambda>g. fileHash g = k) (fls @ [f]))) (first_keys fls)"
      by (intro map_cong) auto
    finally show ?thesis using True by (simp add: first_keys_snoc)
  next
    case False
    then have "\<forall>x \<in> set fls. fileHash x \<noteq> fileHash f" by (metis imageI)
    then have none: "?G (fileHash f) = []"
      by (simp add: filter_empty_conv)
    from False have "first_pass (fls @ [f]) =
        map (\<lambda>k. (k, ?G k)) (first_keys fls) @ [(fileHash f, [f])]"
      by (simp add: step add_file_table distinct_first_keys set_first_keys)
    also have "map (\<lambda>k. (k, ?G k)) (first_keys fls) =
        map (\<lambda>k. (k, filter (\<lambda>g. fileHash g = k) (fls @ [f]))) (first_keys fls)"
      using False by (intro map_cong) (auto simp: set_first_keys)
    finally show ?thesis using False none by (simp add: first_keys_snoc)
  qed
qed

lemma exact_groups_spec: "exact_groups (first_pass fls) = spec_exact_groups fls"
proof -
  have "(1 < n) = (2 \<le> n)" for n :: nat by auto
  then show ?thesis
    by (simp add: first_pass_table exact_groups_def spec_exact_groups_def exact_group_def
        filter_map o_def)
qed

lemma spec_exact_groups_member:
  "g \<in> set (spec_exact_groups fls) \<Longrightarrow>
     \<exists>k. g = \<lparr>files = filter (\<lambda>f. fileHash f = k) fls, similarity_details = [1],
                detection_method = ''exact_hash_match''\<rparr> \<and> 2 \<le> length (files g)"
  by (auto simp: spec_exact_groups_def)

lemma spec_exact_groups_share:
  assumes "g1 \<in> set (spec_exact_groups fls)" "g2 \<in> set (spec_exact_groups fls)"
    and "f \<in> set (files g1)" "f \<in> set (files g2)"
  shows "g1 = g2"
proof -
  from spec_exact_groups_member [OF assms(1)] obtain k1
    where g1: "g1 = \<lparr>files = filter (\<lambda>f. fileHash f = k1) fls, similarity_details = [1],
                detection_method = ''exact_hash_match''\<rparr>" by blast
  from spec_exact_groups_member [OF assms(2)] obtain k2
    where g2: "g2 = \<lparr>files = filter (\<lambda>f. fileHash f = k2) fls, similarity_details = [1],
                detection_method = ''exact_hash_match''\<rparr>" by blast
  from assms(3) g1 have "fileHash f = k1" by simp
  moreover from assms(4) g2 have "fileHash f = k2" by simp
  ultimately show ?thesis using g1 g2 by simp
qed

lemma distinct_spec_exact_groups: "distinct (spec_exact_groups fls)"
proof -
  let ?F = "\<lambda>k. filter (\<lambda>f. fileHash f = k) fls"
  let ?ks = "filter (\<lambda>k. 2 \<le> length (?F k)) (first_keys fls)"
  let ?mk = "\<lambda>k. \<lparr>files = ?F k, similarity_details = [1::rat],
                detection_method = ''exact_hash_match''\<rparr>"
  have "inj_on ?mk (set ?ks)"
  proof (rule inj_onI)
    fix k1 k2
    assume k1: "k1 \<in> set ?ks" and k2: "k2 \<in> set ?ks" and eq: "?mk k1 = ?mk k2"
    from k1 have "?F k1 \<noteq> []" by auto
    then obtain f where f: "f \<in> set (?F k1)" by (cases "?F k1") auto
    with eq have "f \<in> set (?F k2)" by simp
    with f show "k1 = k2" by simp
  qed
  moreover have "distinct ?ks" by (simp add: distinct_first_keys)
  ultimately show ?thesis
    by (simp add: spec_exact_groups_def distinct_map)
qed

lemma similarity_groups_not_exact:
  "g \<in> set (duplicateGroups (after_second_pass w fls t similar)) \<Longrightarrow>
     detection_method g = ''ai_content_similarity''"
  using after_second_pass_groups_ok [of w fls t similar] by (simp add: similarity_group_ok_def)

lemma exact_groups_of_detect:
  "filter (\<lambda>g. detection_method g = ''exact_hash_match'') (duplicateGroups (detect w fls t similar)) =
     spec_exact_groups fls"
proof -
  have "filter (\<lambda>g. detection_method g = ''exact_hash_match'')
          (duplicateGroups (after_second_pass w fls t similar)) = []"
    by (auto simp: filter_empty_conv dest: similarity_groups_not_exact)
  moreover have "filter (\<lambda>g. detection_method g = ''exact_hash_match'') (spec_exact_groups fls) =
      spec_exact_groups fls"
    by (simp add: spec_exact_groups_def filter_map o_def)
  ultimately show ?thesis by (simp add: detect_groups exact_groups_spec)
qed

subsection \<open>Rounding and the savings of a group\<close>









subsection \<open>Events, and the collaborator seen from the passes\<close>

lemma prompts_store_events: "prompts (store_events w a r) = []"
  by (auto simp: store_events_def Let_def split: option.splits lookup.splits)

lemma scan_prompts:
  "validate w req = Inr fls \<Longrightarrow>
   prompts (snd (scan w req)) =
     prompts (trace (after_second_pass w fls (threshold_of req) (similar_of req)))"
  by (simp add: scan_valid detect_trace prompts_append prompts_store_events)

lemma similarity_groups_of_detect:
  assumes "g \<in> set (duplicateGroups (detect w fls t similar))"
    and "detection_method g = ''ai_content_similarity''"
  shows "similarity_group_ok (set fls) g"
  using detect_group_cases [OF assms(1)] assms(2) by auto





lemma on_response_core:
  "core s = core s' \<Longrightarrow> core (on_response t f1 f2 r s) = core (on_response t f1 f2 r s')"
  by (induction t f1 f2 r s rule: on_response.induct) (auto simp: core_def prompts_append)

lemma on_response_failed: "failed r \<Longrightarrow> core (on_response t f1 f2 r s) = core s"
  by (cases r) (simp_all add: core_def prompts_append)

lemma on_response_below: "core (on_response t f1 f2 (Parsed (Some (t - 1))) s) = core s"
  by (simp add: core_def)

lemma on_response_non_match:
  assumes "core s = core s'"
  shows "core (on_response t f1 f2 (non_match_on_failure t ask n p) s') =
         core (on_response t f1 f2 (ask n p) s)"
proof (cases "failed (ask n p)")
  case True
  then have "core (on_response t f1 f2 (non_match_on_failure t ask n p) s') = core s'"
    by (simp add: non_match_on_failure_def on_response_below del: on_response.simps)
  with True assms show ?thesis by (simp add: on_response_failed del: on_response.simps)
next
  case False
  then show ?thesis
    using on_response_core [OF assms, of t f1 f2 "ask n p"]
    by (simp add: non_match_on_failure_def del: on_response.simps)
qed

lemma compare_pair_non_match:
  assumes "core s = core s'"
  shows "core (compare_pair t ask f1 f2 s) =
         core (compare_pair t (non_match_on_failure t ask) f1 f2 s')"
proof -
  let ?key = "fileName f1 @ ''_'' @ fileName f2"
  let ?p = "similarityPrompt f1 f2"
  from assms have eq: "duplicateGroups s = duplicateGroups s'" "processedFiles s = processedFiles s'"
    "calls s = calls s'" "prompts (trace s) = prompts (trace s')"
    by (simp_all add: core_def)
  let ?s2 = "s\<lparr>processedFiles := insert ?key (processedFiles s), calls := calls s + 1,
      trace := trace s @ [CollaboratorCall ?p]\<rparr>"
  let ?s2' = "s'\<lparr>processedFiles := insert ?key (processedFiles s'), calls := calls s' + 1,
      trace := trace s' @ [CollaboratorCall ?p]\<rparr>"
  have "core ?s2 = core ?s2'" using eq by (simp add: core_def prompts_append)
  from on_response_non_match [OF this, of t f1 f2 ask "calls s" ?p]
  have call: "core (on_response t f1 f2 (ask (calls s) ?p) ?s2) =
      core (on_response t f1 f2 (non_match_on_failure t ask (calls s') ?p) ?s2')"
    by (simp add: eq del: on_response.simps)
  have skip: "core (s\<lparr>processedFiles := insert ?key (processedFiles s)\<rparr>) =
      core (s'\<lparr>processedFiles := insert ?key (processedFiles s')\<rparr>)"
    using eq by (simp add: core_def)
  show ?thesis
    using assms eq(2) call skip
    by (simp add: compare_pair_def Let_def del: on_response.simps)
qed

lemma second_pass_non_match:
  "core s = core s' \<Longrightarrow>
   core (second_pass t ask fls s) = core (second_pass t (non_match_on_failure t ask) fls s')"
  unfolding second_pass_def
  by (rule outer_loop_related [where R = "\<lambda>s s'. core s = core s'"]) (rule compare_pair_non_match)

lemma on_response_uncounted:
  "uncounted s = uncounted s' \<Longrightarrow>
   uncounted (on_response t f1 f2 r s) = uncounted (on_response t f1 f2 r s')"
  by (induction t f1 f2 r s rule: on_response.induct) (auto simp: uncounted_def)

lemma compare_pair_uncounted:
  assumes det: "deterministic ask" and "uncounted s = uncounted s'"
  shows "uncounted (compare_pair t ask f1 f2 s) = uncounted (compare_pair t ask f1 f2 s')"
proof -
  let ?key = "fileName f1 @ ''_'' @ fileName f2"
  let ?p = "similarityPrompt f1 f2"
  from assms(2) have eq: "duplicateGroups s = duplicateGroups s'" "processedFiles s = processedFiles s'"
    "trace s = trace s'"
    by (simp_all add: uncounted_def)
  from det have same: "ask (calls s) ?p = ask (calls s') ?p"
    by (simp add: deterministic_def)
  let ?s2 = "s\<lparr>processedFiles := insert ?key (processedFiles s), calls := calls s + 1,
      trace := trace s @ [CollaboratorCall ?p]\<rparr>"
  let ?s2' = "s'\<lparr>processedFiles := insert ?key (processedFiles s'), calls := calls s' + 1,
      trace := trace s' @ [CollaboratorCall ?p]\<rparr>"
  have "uncounted ?s2 = uncounted ?s2'" using eq by (simp add: uncounted_def)
  from on_response_uncounted [OF this, of t f1 f2 "ask (calls s) ?p"]
  have call: "uncounted (on_response t f1 f2 (ask (calls s) ?p) ?s2) =
      uncounted (on_response t f1 f2 (ask (calls s') ?p) ?s2')"
    by (simp only: same)
  have skip: "uncounted (s\<lparr>processedFiles := insert ?key (processedFiles s)\<rparr>) =
      uncounted (s'\<lparr>processedFiles := insert ?key (processedFiles s')\<rparr>)"
    using eq by (simp add: uncounted_def)
  show ?thesis
    using assms(2) eq(2) call skip
    by (simp add: compare_pair_def Let_def del: on_response.simps)
qed

lemma second_pass_uncounted:
  assumes "deterministic ask"
  shows "uncounted s = uncounted s' \<Longrightarrow>
     uncounted (second_pass t ask fls s) = uncounted (second_pass t ask fls s')"
  unfolding second_pass_def
  by (rule outer_loop_related [where R = "\<lambda>s s'. uncounted s = uncounted s'"])
     (rule compare_pair_uncounted [OF assms])

lemma validate_collaborator [simp]:
  "validate (w\<lparr>collaborator := c\<rparr>) req = validate w req"
  by (simp add: validate_def split: option.splits)

lemma validate_clock [simp]:
  "validate (w\<lparr>calls_before := k, now := t\<rparr>) req = validate w req"
  by (simp add: validate_def split: option.splits)

lemma build_result_collaborator [simp]:
  "build_result (w\<lparr>collaborator := c\<rparr>) fls t gs = build_result w fls t gs"
  by (simp add: build_result_def openRouterKey_def)

lemma build_result_clock:
  "build_result (w\<lparr>calls_before := k, now := t'\<rparr>) fls t gs =
     (build_result w fls t gs)\<lparr>scan_summary := (scan_summary (build_result w fls t gs))\<lparr>timestamp := t'\<rparr>\<rparr>"
  by (simp add: build_result_def openRouterKey_def Let_def)

lemma after_second_pass_non_match:
  "core (after_second_pass (w\<lparr>collaborator := non_match_on_failure t (collaborator w)\<rparr>) fls t similar) =
   core (after_second_pass w fls t similar)"
  using second_pass_non_match
    [of "\<lparr>duplicateGroups = [], processedFiles = {}, calls = calls_before w, trace = []\<rparr>"
        "\<lparr>duplicateGroups = [], processedFiles = {}, calls = calls_before w, trace = []\<rparr>"
        t "collaborator w" fls]
  by (simp add: after_second_pass_def openRouterKey_def)

lemma after_second_pass_clock:
  assumes "deterministic (collaborator w)"
  shows "uncounted (after_second_pass (w\<lparr>calls_before := k, now := t'\<rparr>) fls t similar) =
         uncounted (after_second_pass w fls t similar)"
  using second_pass_uncounted [OF assms,
      of "\<lparr>duplicateGroups = [], processedFiles = {}, calls = k, trace = []\<rparr>"
         "\<lparr>duplicateGroups = [], processedFiles = {}, calls = calls_before w, trace = []\<rparr>" t fls]
  by (simp add: after_second_pass_def openRouterKey_def uncounted_def)

section \<open>The claims\<close>

subsection \<open>C2: the empty file list\<close>

text \<open>
  C2, as amended. Calling the scan with an empty (or missing) file list is an error, not
  a degenerate input: the guard at the head of the handler throws
  \<^verbatim>\<open>Files array is required\<close>, the answer is the error response and it carries no
  groups.
\<close>

theorem empty_file_list_is_rejected:
  assumes "req_files req = Some [] \<or> req_files req = None"
  shows "fst (scan w req) = Inl FilesRequired \<and> returned_groups w req = []
         \<and> message FilesRequired = ''Files array is required''"
  using assms by (auto simp: scan_invalid validate_empty validate_missing returned_groups_def)

text \<open>The theorem at the empty list of the sample request.\<close>

theorem empty_file_list_is_rejected_witness:
  "req_files (sample_request [] True) = Some [] \<and>
   fst (scan (sample_world NotOk) (sample_request [] True)) = Inl FilesRequired"
  using empty_file_list_is_rejected [of "sample_request [] True" "sample_world NotOk"]
  by (simp add: sample_request_def)

text \<open>C2 as stated fails: for the empty list the answer is not the result with zero
  files scanned and no groups, it is the error.\<close>

theorem empty_file_list_counterexample:
  "fst (scan (sample_world NotOk) (sample_request [] True)) \<noteq>
     Inr \<lparr>success = True,
          scan_summary = \<lparr>total_files_scanned = 0, duplicate_groups_found = 0,
            total_duplicate_files = 0, similarity_threshold = 9 / 10,
            total_potential_savings_mb = 0, scan_method = ''ai_enhanced'',
            timestamp = now (sample_world NotOk)\<rparr>,
          duplicate_groups = []\<rparr>
   \<and> fst (scan (sample_world NotOk) (sample_request [] True)) = Inl FilesRequired"
  by (simp add: scan_def validate_def sample_defs)

subsection \<open>C9: no group of fewer than two files\<close>

text \<open>
  C9. Every group of the returned \<^verbatim>\<open>duplicate_groups\<close> sequence has at least two
  member files, whatever the input and whatever the collaborator answers.
\<close>

theorem every_group_has_two_members:
  assumes "g \<in> set (returned_groups w req)"
  shows "2 \<le> length (info_files g)"
proof (cases "validate w req")
  case (Inl e)
  with assms show ?thesis by (simp add: returned_groups_invalid)
next
  case (Inr fls)
  with assms obtain grp
    where grp: "grp \<in> set (duplicateGroups (detect w fls (threshold_of req) (similar_of req)))"
      and g: "g = format_group grp"
    by (auto simp: returned_groups_valid)
  from detect_group_cases [OF grp] have "2 \<le> length (files grp)"
    by (auto simp: similarity_group_ok_def)
  with g show ?thesis by (simp add: format_group_files)
qed

text \<open>The theorem at the one group of two files that the collaborator scores 0.95.\<close>

theorem every_group_has_two_members_witness:
  "returned_groups (sample_world (Parsed (Some (19 / 20))))
      (sample_request [sample_file ''a'' 100 ''x'' ''h1'', sample_file ''b'' 100 ''y'' ''h2''] True) ! 0
    \<in> set (returned_groups (sample_world (Parsed (Some (19 / 20))))
      (sample_request [sample_file ''a'' 100 ''x'' ''h1'', sample_file ''b'' 100 ''y'' ''h2''] True))
   \<and> 2 \<le> length (info_files (returned_groups (sample_world (Parsed (Some (19 / 20))))
      (sample_request [sample_file ''a'' 100 ''x'' ''h1'', sample_file ''b'' 100 ''y'' ''h2''] True) ! 0))"
proof -
  let ?gs = "returned_groups (sample_world (Parsed (Some (19 / 20))))
      (sample_request [sample_file ''a'' 100 ''x'' ''h1'', sample_file ''b'' 100 ''y'' ''h2''] True)"
  have "length ?gs = 1" by (simp add: scan_defs sample_defs)
  then have h: "?gs ! 0 \<in> set ?gs" by simp
  from every_group_has_two_members [OF h] h show ?thesis by simp
qed

subsection \<open>C6: the \<^verbatim>\<open>includeSimilar\<close> gate\<close>

text \<open>
  C6. If \<^verbatim>\<open>includeSimilar\<close> is false, the returned sequence holds no content similarity
  group: every group is an exact hash match, and the collaborator is not even asked,
  however it would have scored a pair.
\<close>

theorem no_similarity_groups_without_includeSimilar:
  assumes "includeSimilar req = Some False"
  shows "prompts (snd (scan w req)) = [] \<and>
         list_all (\<lambda>g. info_detection_method g = ''exact_hash_match'') (returned_groups w req)"
proof (cases "validate w req")
  case (Inl e)
  then show ?thesis by (simp add: returned_groups_invalid scan_invalid)
next
  case (Inr fls)
  from assms have off: "similar_of req = False" by (simp add: similar_of_def)
  have "list_all (\<lambda>g. info_detection_method g = ''exact_hash_match'') (returned_groups w req)"
    using exact_groups_members
    by (auto simp: returned_groups_valid [OF Inr] off detect_groups after_second_pass_off
        list_all_iff format_group_method)
  moreover have "prompts (snd (scan w req)) = []"
    by (cases "authorization req")
      (auto simp: scan_valid [OF Inr] off detect_trace after_second_pass_def prompts_append
        store_events_def Let_def split: lookup.splits option.splits)
  ultimately show ?thesis by simp
qed

text \<open>The theorem at three files, two of one hash, that the collaborator scores 1: with
  the flag off only the exact group is returned, with the flag on a similarity group
  comes first.\<close>

theorem no_similarity_groups_without_includeSimilar_witness:
  "includeSimilar (sample_request [sample_file ''a'' 100 ''x'' ''h1'', sample_file ''b'' 100 ''x'' ''h1'',
       sample_file ''c'' 100 ''x'' ''h2''] False) = Some False
   \<and> map info_detection_method (returned_groups (sample_world (Parsed (Some 1)))
     (sample_request [sample_file ''a'' 100 ''x'' ''h1'', sample_file ''b'' 100 ''x'' ''h1'',
       sample_file ''c'' 100 ''x'' ''h2''] False)) = [''exact_hash_match'']
   \<and> map info_detection_method (returned_groups (sample_world (Parsed (Some 1)))
     (sample_request [sample_file ''a'' 100 ''x'' ''h1'', sample_file ''b'' 100 ''x'' ''h1'',
       sample_file ''c'' 100 ''x'' ''h2''] True)) = [''ai_content_similarity'', ''exact_hash_match'']"
  using no_similarity_groups_without_includeSimilar
    [of "sample_request [sample_file ''a'' 100 ''x'' ''h1'', sample_file ''b'' 100 ''x'' ''h1'',
       sample_file ''c'' 100 ''x'' ''h2''] False" "sample_world (Parsed (Some 1))"]
  by (simp add: scan_defs sample_defs)

subsection \<open>C5: the exact grouping pass\<close>



subsection \<open>C1: the groups a file is in\<close>

text \<open>
  C1, as amended. The returned groups are the formatted groups of \<open>detect\<close>. Among
  them the exact hash match groups are pairwise different and no file is a member of
  two of them: every input file appears in at most one exact hash match group. With
  \<^verbatim>\<open>includeSimilar\<close> false there are no other groups. A member of an exact hash match
  group may also be a member of a content similarity group.
\<close>

theorem one_exact_group_per_file:
  assumes "validate w req = Inr fls"
  shows "returned_groups w req =
           map format_group (duplicateGroups (detect w fls (threshold_of req) (similar_of req)))
       \<and> distinct (filter (\<lambda>g. detection_method g = ''exact_hash_match'')
           (duplicateGroups (detect w fls (threshold_of req) (similar_of req))))
       \<and> (\<forall>g1 g2 f.
            g1 \<in> set (duplicateGroups (detect w fls (threshold_of req) (similar_of req))) \<and>
            g2 \<in> set (duplicateGroups (detect w fls (threshold_of req) (similar_of req))) \<and>
            detection_method g1 = ''exact_hash_match'' \<and> detection_method g2 = ''exact_hash_match'' \<and>
            f \<in> set (files g1) \<and> f \<in> set (files g2) \<longrightarrow> g1 = g2)
       \<and> (includeSimilar req = Some False \<longrightarrow>
            list_all (\<lambda>g. detection_method g = ''exact_hash_match'')
              (duplicateGroups (detect w fls (threshold_of req) (similar_of req))))"
proof -
  let ?gs = "duplicateGroups (detect w fls (threshold_of req) (similar_of req))"
  have ex: "filter (\<lambda>g. detection_method g = ''exact_hash_match'') ?gs = spec_exact_groups fls"
    by (rule exact_groups_of_detect)
  have mem: "g \<in> set (spec_exact_groups fls)"
    if "g \<in> set ?gs" "detection_method g = ''exact_hash_match''" for g
  proof -
    from that have "g \<in> set (filter (\<lambda>g. detection_method g = ''exact_hash_match'') ?gs)" by simp
    then show ?thesis by (simp only: ex)
  qed
  have share: "g1 = g2"
    if "g1 \<in> set ?gs" "g2 \<in> set ?gs" "detection_method g1 = ''exact_hash_match''"
      "detection_method g2 = ''exact_hash_match''" "f \<in> set (files g1)" "f \<in> set (files g2)"
    for g1 g2 f
    using that by (intro spec_exact_groups_share [of g1 fls g2 f] mem)
  have off: "list_all (\<lambda>g. detection_method g = ''exact_hash_match'') ?gs"
    if "includeSimilar req = Some False"
  proof -
    from that have "similar_of req = False" by (simp add: similar_of_def)
    then show ?thesis
      using exact_groups_members
      by (auto simp: detect_groups after_second_pass_off list_all_iff)
  qed
  show ?thesis
    using share off
    by (simp only: returned_groups_valid [OF assms] ex distinct_spec_exact_groups) blast
qed

text \<open>The theorem at the three files of the counterexample below: the file \<^verbatim>\<open>a\<close> is
  in the exact group, which is the second group.\<close>

theorem one_exact_group_per_file_witness:
  "validate (sample_world (Parsed (Some (19 / 20))))
     (sample_request [sample_file ''a'' 100 ''x'' ''h1'', sample_file ''b'' 100 ''x'' ''h1'',
        sample_file ''c'' 7 ''x'' ''h2''] True) =
     Inr [sample_file ''a'' 100 ''x'' ''h1'', sample_file ''b'' 100 ''x'' ''h1'',
        sample_file ''c'' 7 ''x'' ''h2'']
   \<and> distinct (filter (\<lambda>g. detection_method g = ''exact_hash_match'')
        (duplicateGroups (detect (sample_world (Parsed (Some (19 / 20))))
          [sample_file ''a'' 100 ''x'' ''h1'', sample_file ''b'' 100 ''x'' ''h1'',
           sample_file ''c'' 7 ''x'' ''h2''] (9 / 10) True)))
   \<and> map (\<lambda>g. map fileName (files g))
        (filter (\<lambda>g. detection_method g = ''exact_hash_match'')
          (duplicateGroups (detect (sample_world (Parsed (Some (19 / 20))))
            [sample_file ''a'' 100 ''x'' ''h1'', sample_file ''b'' 100 ''x'' ''h1'',
             sample_file ''c'' 7 ''x'' ''h2''] (9 / 10) True))) = [[''a'', ''b'']]"
proof -
  let ?fls = "[sample_file ''a'' 100 ''x'' ''h1'', sample_file ''b'' 100 ''x'' ''h1'',
        sample_file ''c'' 7 ''x'' ''h2'']"
  let ?w = "sample_world (Parsed (Some (19 / 20)))"
  have v: "validate ?w (sample_request ?fls True) = Inr ?fls"
    by (simp add: validate_def sample_defs or_else_def)
  have t: "threshold_of (sample_request ?fls True) = 9 / 10" "similar_of (sample_request ?fls True) = True"
    by (simp_all add: threshold_of_def similar_of_def sample_request_def)
  have "map (\<lambda>g. map fileName (files g))
        (filter (\<lambda>g. detection_method g = ''exact_hash_match'')
          (duplicateGroups (detect ?w ?fls (9 / 10) True))) = [[''a'', ''b'']]"
    by (simp add: scan_defs sample_defs)
  with one_exact_group_per_file [OF v] v t show ?thesis by simp
qed

text \<open>C1 as stated fails. Of three files with content, \<^verbatim>\<open>a\<close> and \<^verbatim>\<open>b\<close> share a hash
  and \<^verbatim>\<open>c\<close> has another; the collaborator scores every pair 0.95. The pairs
  \<^verbatim>\<open>(a, c)\<close> and \<^verbatim>\<open>(b, c)\<close> build the similarity group \<^verbatim>\<open>a, c, b\<close>, and the first pass
  gives the exact group \<^verbatim>\<open>a, b\<close>: the file \<^verbatim>\<open>a\<close> is returned in both.\<close>

theorem file_in_two_groups_counterexample:
  "map info_detection_method
     (returned_groups (sample_world (Parsed (Some (19 / 20))))
       (sample_request [sample_file ''a'' 100 ''x'' ''h1'', sample_file ''b'' 100 ''x'' ''h1'',
          sample_file ''c'' 7 ''x'' ''h2''] True)) =
     [''ai_content_similarity'', ''exact_hash_match'']
   \<and> map (\<lambda>g. map name (info_files g))
     (returned_groups (sample_world (Parsed (Some (19 / 20))))
       (sample_request [sample_file ''a'' 100 ''x'' ''h1'', sample_file ''b'' 100 ''x'' ''h1'',
          sample_file ''c'' 7 ''x'' ''h2''] True)) =
     [[''a'', ''c'', ''b''], [''a'', ''b'']]
   \<and> map files
     (duplicateGroups (detect (sample_world (Parsed (Some (19 / 20))))
       [sample_file ''a'' 100 ''x'' ''h1'', sample_file ''b'' 100 ''x'' ''h1'',
        sample_file ''c'' 7 ''x'' ''h2''] (9 / 10) True)) =
     [[sample_file ''a'' 100 ''x'' ''h1'', sample_file ''c'' 7 ''x'' ''h2'',
       sample_file ''b'' 100 ''x'' ''h1''],
      [sample_file ''a'' 100 ''x'' ''h1'', sample_file ''b'' 100 ''x'' ''h1'']]"
  by (simp add: scan_defs sample_defs)

subsection \<open>C3: the potential savings of a group\<close>




subsection \<open>C10: files are identified by name in the similarity pass\<close>

text \<open>
  C10, as amended. In the similarity pass a pair is remembered under the key made of its
  two file names, and the collaborator is asked at most once for each key. A file is
  appended to an existing similarity group only if no member has its name, but a new
  group is created from both files of the matching pair whatever their names. So in
  every content similarity group the names of the members after the first are distinct
  and the name of the first differs from the names of the members from the third on:
  only the two founding members of a group can share a file name.
\<close>

theorem similarity_pass_identifies_files_by_name:
  assumes "validate w req = Inr fls"
  shows "distinct (map pair_key (prompts (snd (scan w req))))
       \<and> (\<forall>g \<in> set (duplicateGroups (detect w fls (threshold_of req) (similar_of req))).
            detection_method g = ''ai_content_similarity'' \<longrightarrow>
            distinct (map fileName (tl (files g))) \<and>
            fileName (hd (files g)) \<notin> fileName ` set (drop 2 (files g)))"
proof -
  have "distinct (map pair_key (prompts (snd (scan w req))))"
    using after_second_pass_trace_ok [of w fls "threshold_of req" "similar_of req"]
    by (simp add: scan_prompts [OF assms] trace_ok_def)
  moreover have "distinct (map fileName (tl (files g))) \<and>
            fileName (hd (files g)) \<notin> fileName ` set (drop 2 (files g))"
    if "g \<in> set (duplicateGroups (detect w fls (threshold_of req) (similar_of req)))"
      "detection_method g = ''ai_content_similarity''" for g
    using similarity_groups_of_detect [OF that] by (simp add: similarity_group_ok_def)
  ultimately show ?thesis by blast
qed

text \<open>The theorem at three files of one name and three hashes: the collaborator is asked
  once, for the key \<^verbatim>\<open>a_a\<close>.\<close>

theorem similarity_pass_identifies_files_by_name_witness:
  "validate (sample_world (Parsed (Some (19 / 20))))
     (sample_request [sample_file ''a'' 1 ''x'' ''h1'', sample_file ''a'' 2 ''y'' ''h2'',
        sample_file ''a'' 3 ''z'' ''h3''] True) =
     Inr [sample_file ''a'' 1 ''x'' ''h1'', sample_file ''a'' 2 ''y'' ''h2'',
        sample_file ''a'' 3 ''z'' ''h3'']
   \<and> map pair_key (prompts (snd (scan (sample_world (Parsed (Some (19 / 20))))
     (sample_request [sample_file ''a'' 1 ''x'' ''h1'', sample_file ''a'' 2 ''y'' ''h2'',
        sample_file ''a'' 3 ''z'' ''h3''] True)))) = [''a_a'']
   \<and> distinct (map pair_key (prompts (snd (scan (sample_world (Parsed (Some (19 / 20))))
     (sample_request [sample_file ''a'' 1 ''x'' ''h1'', sample_file ''a'' 2 ''y'' ''h2'',
        sample_file ''a'' 3 ''z'' ''h3''] True)))))"
proof -
  let ?fls = "[sample_file ''a'' 1 ''x'' ''h1'', sample_file ''a'' 2 ''y'' ''h2'',
        sample_file ''a'' 3 ''z'' ''h3'']"
  let ?w = "sample_world (Parsed (Some (19 / 20)))"
  have v: "validate ?w (sample_request ?fls True) = Inr ?fls"
    by (simp add: validate_def sample_defs or_else_def)
  have "map pair_key (prompts (snd (scan ?w (sample_request ?fls True)))) = [''a_a'']"
    by (simp add: scan_defs sample_defs pair_key_def)
  with similarity_pass_identifies_files_by_name [OF v] v show ?thesis by simp
qed

text \<open>C10 as stated fails. Two different descriptors have the name \<^verbatim>\<open>a\<close> and different
  hashes; their pair is scored 0.95 and founds a similarity group that holds both.\<close>

theorem same_name_files_in_one_group_counterexample:
  "sample_file ''a'' 1 ''x'' ''h1'' \<noteq> sample_file ''a'' 2 ''y'' ''h2''
   \<and> map detection_method
       (duplicateGroups (detect (sample_world (Parsed (Some (19 / 20))))
         [sample_file ''a'' 1 ''x'' ''h1'', sample_file ''a'' 2 ''y'' ''h2''] (9 / 10) True)) =
       [''ai_content_similarity'']
   \<and> map files
       (duplicateGroups (detect (sample_world (Parsed (Some (19 / 20))))
         [sample_file ''a'' 1 ''x'' ''h1'', sample_file ''a'' 2 ''y'' ''h2''] (9 / 10) True)) =
       [[sample_file ''a'' 1 ''x'' ''h1'', sample_file ''a'' 2 ''y'' ''h2'']]
   \<and> map (\<lambda>g. map hash_label (info_files g))
       (returned_groups (sample_world (Parsed (Some (19 / 20))))
         (sample_request [sample_file ''a'' 1 ''x'' ''h1'', sample_file ''a'' 2 ''y'' ''h2''] True)) =
       [[''h1'', ''h2'']]"
  by (simp add: scan_defs sample_defs)

subsection \<open>C7: the effects of a scan\<close>




subsection \<open>C4: a failing collaborator\<close>

text \<open>
  C4. A failure of the collaborator on a pair (a network error, a response that is not
  ok, a body that does not parse) is never fatal. A request that passes the two checks
  is answered with a complete result, whatever the collaborator does; the result is
  the one that a collaborator gives which answers with a score below the threshold
  wherever the given one fails (the pair is a non-match), and the same pairs are sent
  to both (the pass continues with the remaining pairs).
\<close>

theorem collaborator_failure_is_not_fatal:
  assumes "validate w req = Inr fls"
  shows "(\<exists>r. fst (scan w req) = Inr r \<and> success r \<and>
            total_files_scanned (scan_summary r) = length fls \<and>
            duplicate_groups_found (scan_summary r) = length (duplicate_groups r))
       \<and> fst (scan (w\<lparr>collaborator := non_match_on_failure (threshold_of req) (collaborator w)\<rparr>) req) =
           fst (scan w req)
       \<and> prompts (snd (scan (w\<lparr>collaborator := non_match_on_failure (threshold_of req) (collaborator w)\<rparr>) req)) =
           prompts (snd (scan w req))"
proof -
  let ?w' = "w\<lparr>collaborator := non_match_on_failure (threshold_of req) (collaborator w)\<rparr>"
  let ?t = "threshold_of req"
  have v': "validate ?w' req = Inr fls" using assms by simp
  have c: "core (after_second_pass ?w' fls ?t (similar_of req)) =
      core (after_second_pass w fls ?t (similar_of req))"
    by (rule after_second_pass_non_match)
  then have groups: "duplicateGroups (detect ?w' fls ?t (similar_of req)) =
      duplicateGroups (detect w fls ?t (similar_of req))"
    by (simp add: detect_groups core_def)
  from c have calls: "prompts (snd (scan ?w' req)) = prompts (snd (scan w req))"
    by (simp add: scan_prompts [OF assms] scan_prompts [OF v'] core_def)
  have result: "fst (scan ?w' req) = fst (scan w req)"
    by (simp add: scan_valid [OF assms] scan_valid [OF v'] groups)
  have "\<exists>r. fst (scan w req) = Inr r \<and> success r \<and>
            total_files_scanned (scan_summary r) = length fls \<and>
            duplicate_groups_found (scan_summary r) = length (duplicate_groups r)"
    by (simp add: scan_valid [OF assms] build_result_def Let_def)
  with result calls show ?thesis by simp
qed

text \<open>The theorem at three files and a collaborator whose first call fails and whose
  later calls score 1: all three pairs are asked, and the second and third pair build
  the group.\<close>

theorem collaborator_failure_is_not_fatal_witness:
  "validate ((sample_world NotOk)\<lparr>collaborator := (\<lambda>n p. if n = 0 then NetworkError else Parsed (Some 1))\<rparr>)
     (sample_request [sample_file ''a'' 1 ''x'' ''h1'', sample_file ''b'' 2 ''y'' ''h2'',
        sample_file ''c'' 3 ''z'' ''h3''] True) =
     Inr [sample_file ''a'' 1 ''x'' ''h1'', sample_file ''b'' 2 ''y'' ''h2'', sample_file ''c'' 3 ''z'' ''h3'']
   \<and> map (\<lambda>g. map name (info_files g))
       (returned_groups ((sample_world NotOk)\<lparr>collaborator := (\<lambda>n p. if n = 0 then NetworkError else Parsed (Some 1))\<rparr>)
         (sample_request [sample_file ''a'' 1 ''x'' ''h1'', sample_file ''b'' 2 ''y'' ''h2'',
            sample_file ''c'' 3 ''z'' ''h3''] True)) = [[''a'', ''c'', ''b'']]
   \<and> map pair_key (prompts (snd (scan
         ((sample_world NotOk)\<lparr>collaborator := (\<lambda>n p. if n = 0 then NetworkError else Parsed (Some 1))\<rparr>)
         (sample_request [sample_file ''a'' 1 ''x'' ''h1'', sample_file ''b'' 2 ''y'' ''h2'',
            sample_file ''c'' 3 ''z'' ''h3''] True)))) = [''a_b'', ''a_c'', ''b_c'']
   \<and> fst (scan ((sample_world NotOk)\<lparr>collaborator :=
           non_match_on_failure (9 / 10) (\<lambda>n p. if n = 0 then NetworkError else Parsed (Some 1))\<rparr>)
         (sample_request [sample_file ''a'' 1 ''x'' ''h1'', sample_file ''b'' 2 ''y'' ''h2'',
            sample_file ''c'' 3 ''z'' ''h3''] True)) =
     fst (scan ((sample_world NotOk)\<lparr>collaborator := (\<lambda>n p. if n = 0 then NetworkError else Parsed (Some 1))\<rparr>)
         (sample_request [sample_file ''a'' 1 ''x'' ''h1'', sample_file ''b'' 2 ''y'' ''h2'',
            sample_file ''c'' 3 ''z'' ''h3''] True))"
proof -
  let ?fls = "[sample_file ''a'' 1 ''x'' ''h1'', sample_file ''b'' 2 ''y'' ''h2'', sample_file ''c'' 3 ''z'' ''h3'']"
  let ?w = "(sample_world NotOk)\<lparr>collaborator := (\<lambda>n p. if n = 0 then NetworkError else Parsed (Some 1))\<rparr>"
  let ?req = "sample_request ?fls True"
  have v: "validate ?w ?req = Inr ?fls"
    by (simp add: validate_def sample_defs or_else_def)
  have t: "threshold_of ?req = 9 / 10"
    by (simp add: threshold_of_def sample_request_def)
  have g: "map (\<lambda>g. map name (info_files g)) (returned_groups ?w ?req) = [[''a'', ''c'', ''b'']]"
    by (simp add: scan_defs sample_defs)
  have p: "map pair_key (prompts (snd (scan ?w ?req))) = [''a_b'', ''a_c'', ''b_c'']"
    by (simp add: scan_defs sample_defs pair_key_def)
  have "fst (scan (?w\<lparr>collaborator := non_match_on_failure (9 / 10) (collaborator ?w)\<rparr>) ?req) =
      fst (scan ?w ?req)"
    by (rule conjunct1 [OF conjunct2 [OF collaborator_failure_is_not_fatal [OF v, unfolded t]]])
  then have "fst (scan ((sample_world NotOk)\<lparr>collaborator :=
           non_match_on_failure (9 / 10) (\<lambda>n p. if n = 0 then NetworkError else Parsed (Some 1))\<rparr>) ?req) =
      fst (scan ?w ?req)"
    by simp
  with v g p show ?thesis by simp
qed

subsection \<open>C8: scanning twice\<close>

text \<open>
  C8, as amended. With a deterministic collaborator, a second scan of the same request
  (later, and after any number of collaborator calls) returns the result of the first
  with only the \<^verbatim>\<open>timestamp\<close> of the summary changed to the time of the second scan:
  the groups, their order and all counters are identical.
\<close>

theorem repeated_scan_differs_only_in_timestamp:
  assumes "deterministic (collaborator w)"
  shows "fst (scan (w\<lparr>calls_before := k, now := t\<rparr>) req) = set_timestamp t (fst (scan w req))"
proof (cases "validate w req")
  case (Inl e)
  then have "validate (w\<lparr>calls_before := k, now := t\<rparr>) req = Inl e" by simp
  with Inl show ?thesis by (simp add: scan_invalid set_timestamp_def)
next
  case (Inr fls)
  let ?w' = "w\<lparr>calls_before := k, now := t\<rparr>"
  have v': "validate ?w' req = Inr fls" using Inr by simp
  have "uncounted (after_second_pass ?w' fls (threshold_of req) (similar_of req)) =
      uncounted (after_second_pass w fls (threshold_of req) (similar_of req))"
    by (rule after_second_pass_clock [OF assms])
  then have groups: "duplicateGroups (detect ?w' fls (threshold_of req) (similar_of req)) =
      duplicateGroups (detect w fls (threshold_of req) (similar_of req))"
    by (simp add: detect_groups uncounted_def)
  show ?thesis
    by (simp add: scan_valid [OF Inr] scan_valid [OF v'] groups build_result_clock set_timestamp_def)
qed

text \<open>The theorem at two files that a constant collaborator scores 1.\<close>

theorem repeated_scan_differs_only_in_timestamp_witness:
  "deterministic (collaborator (sample_world (Parsed (Some 1))))
   \<and> fst (scan ((sample_world (Parsed (Some 1)))\<lparr>calls_before := 1, now := ''2024-01-02T00:00:00.000Z''\<rparr>)
       (sample_request [sample_file ''a'' 1 ''x'' ''h1'', sample_file ''b'' 2 ''y'' ''h2''] True)) =
     set_timestamp ''2024-01-02T00:00:00.000Z''
       (fst (scan (sample_world (Parsed (Some 1)))
         (sample_request [sample_file ''a'' 1 ''x'' ''h1'', sample_file ''b'' 2 ''y'' ''h2''] True)))"
proof -
  have d: "deterministic (collaborator (sample_world (Parsed (Some 1))))"
    by (simp add: deterministic_def sample_world_def)
  from repeated_scan_differs_only_in_timestamp [OF d] d show ?thesis by simp
qed

text \<open>C8 as stated fails: the two results differ, in their timestamps.\<close>

theorem repeated_scan_counterexample:
  "fst (scan ((sample_world (Parsed (Some 1)))\<lparr>calls_before := 1, now := ''2024-01-02T00:00:00.000Z''\<rparr>)
       (sample_request [sample_file ''a'' 1 ''x'' ''h1'', sample_file ''b'' 2 ''y'' ''h2''] True)) \<noteq>
   fst (scan (sample_world (Parsed (Some 1)))
       (sample_request [sample_file ''a'' 1 ''x'' ''h1'', sample_file ''b'' 2 ''y'' ''h2''] True))"
  by (simp add: scan_defs sample_defs)

end
